theory Spec2Isabelle
  imports Main "HOL-Library.Word"
begin

section \<open>JavaScript strings\<close>

text \<open>
  A JavaScript string is a sequence of UTF-16 code units. The component reads and writes
  strings through \<^verbatim>\<open>String.prototype.trim\<close>, \<^verbatim>\<open>JSON.stringify\<close> and
  \<^verbatim>\<open>JSON.parse\<close>, all of which are defined on code units, so a string is modelled
  as a list of 16-bit words. \<open>lit\<close> turns an Isabelle string literal (ASCII) into such a
  string.
\<close>

type_synonym jsstring = "16 word list"

definition lit :: "string \<Rightarrow> jsstring" where
  "lit s = map of_char s"

text \<open>
  \<^verbatim>\<open>trim\<close> removes the WhiteSpace and LineTerminator code points of ECMAScript from
  both ends: TAB, LF, VT, FF, CR, SP, NBSP, U+1680, U+2000 to U+200A, U+2028, U+2029,
  U+202F, U+205F, U+3000 and U+FEFF.
\<close>

definition isWhiteSpace :: "16 word \<Rightarrow> bool" where
  "isWhiteSpace c \<longleftrightarrow>
     c = 0x9 \<or> c = 0xA \<or> c = 0xB \<or> c = 0xC \<or> c = 0xD \<or> c = 0x20 \<or> c = 0xA0 \<or>
     c = 0x1680 \<or> (0x2000 \<le> c \<and> c \<le> 0x200A) \<or> c = 0x2028 \<or> c = 0x2029 \<or>
     c = 0x202F \<or> c = 0x205F \<or> c = 0x3000 \<or> c = 0xFEFF"

definition trim :: "jsstring \<Rightarrow> jsstring" where
  "trim s = rev (dropWhile isWhiteSpace (rev (dropWhile isWhiteSpace s)))"

section \<open>The data model\<close>

text \<open>
  \<^verbatim>\<open>interface Todo { id: string; text: string; completed: boolean; createdAt: number }\<close>.
  The fields \<^verbatim>\<open>id\<close> and \<^verbatim>\<open>text\<close> are called \<open>id_t\<close> and \<open>text_t\<close> here.
  The component only ever stores \<^verbatim>\<open>Date.now()\<close> in \<^verbatim>\<open>createdAt\<close>, an integral number
  of milliseconds, so the field is an integer here. A JavaScript number holds every
  integer up to \<^verbatim>\<open>Number.MAX_SAFE_INTEGER\<close> in magnitude exactly; \<open>safe_createdAt\<close>
  says that the field is one of these. Numbers that are not integers, and the values
  \<^verbatim>\<open>NaN\<close> and \<^verbatim>\<open>Infinity\<close>, are outside this model.
\<close>

record Todo =
  id_t :: jsstring
  text_t :: jsstring
  completed :: bool
  createdAt :: int

definition MAX_SAFE_INTEGER :: nat where
  "MAX_SAFE_INTEGER = 2 ^ 53 - 1"

definition safe_createdAt :: "Todo \<Rightarrow> bool" where
  "safe_createdAt t \<longleftrightarrow> \<bar>createdAt t\<bar> \<le> int MAX_SAFE_INTEGER"

text \<open>\<^verbatim>\<open>type FilterType = 'all' | 'pending' | 'completed'\<close>\<close>

datatype FilterType = F_all | F_pending | F_completed

section \<open>JSON.stringify on the collection\<close>

text \<open>
  \<^verbatim>\<open>JSON.stringify\<close> is part of the platform, not of the repository; it is modelled
  after ECMA-262 on the values the component passes to it, arrays of \<^verbatim>\<open>Todo\<close>.

  \<^verbatim>\<open>Number::toString\<close> prints an integer of magnitude below \<open>10\<^sup>2\<^sup>1\<close> as its decimal
  digits, with a leading minus sign when negative.
\<close>

fun digits :: "nat \<Rightarrow> jsstring" where
  "digits n = (if n < 10 then [of_nat (48 + n)] else digits (n div 10) @ [of_nat (48 + n mod 10)])"

declare digits.simps [simp del]

definition Number_toString :: "int \<Rightarrow> jsstring" where
  "Number_toString n = (if n < 0 then 0x2D # digits (nat (- n)) else digits (nat n))"

text \<open>
  \<^verbatim>\<open>QuoteJSONString\<close>: the string between double quotes, where backspace, tab, line
  feed, form feed, carriage return, the double quote and the backslash get their
  two-character escapes, every other code unit below U+0020 and every surrogate that is
  not part of a pair is written \<^verbatim>\<open>\uXXXX\<close> with lower-case hexadecimal digits, and
  everything else stands for itself.
\<close>

definition hexdigit :: "nat \<Rightarrow> 16 word" where
  "hexdigit d = of_nat (if d < 10 then 48 + d else 87 + d)"

definition UnicodeEscape :: "16 word \<Rightarrow> jsstring" where
  "UnicodeEscape c =
     [0x5C, 0x75, hexdigit (unat c div 4096), hexdigit (unat c div 256 mod 16),
      hexdigit (unat c div 16 mod 16), hexdigit (unat c mod 16)]"

definition isLeadingSurrogate :: "16 word \<Rightarrow> bool" where
  "isLeadingSurrogate c \<longleftrightarrow> 0xD800 \<le> c \<and> c \<le> 0xDBFF"

definition isTrailingSurrogate :: "16 word \<Rightarrow> bool" where
  "isTrailingSurrogate c \<longleftrightarrow> 0xDC00 \<le> c \<and> c \<le> 0xDFFF"

definition quote_unit :: "16 word \<Rightarrow> jsstring" where
  "quote_unit c =
     (if c = 0x8 then [0x5C, 0x62]
      else if c = 0x9 then [0x5C, 0x74]
      else if c = 0xA then [0x5C, 0x6E]
      else if c = 0xC then [0x5C, 0x66]
      else if c = 0xD then [0x5C, 0x72]
      else if c = 0x22 then [0x5C, 0x22]
      else if c = 0x5C then [0x5C, 0x5C]
      else if c < 0x20 \<or> isLeadingSurrogate c \<or> isTrailingSurrogate c then UnicodeEscape c
      else [c])"

fun quote_units :: "jsstring \<Rightarrow> jsstring" where
  "quote_units [] = []"
| "quote_units [c] = quote_unit c"
| "quote_units (c # d # cs) =
     (if isLeadingSurrogate c \<and> isTrailingSurrogate d then c # d # quote_units cs
      else quote_unit c @ quote_units (d # cs))"

definition QuoteJSONString :: "jsstring \<Rightarrow> jsstring" where
  "QuoteJSONString s = 0x22 # quote_units s @ [0x22]"

text \<open>
  A \<^verbatim>\<open>Todo\<close> object is serialised with its properties in the order in which
  \<^verbatim>\<open>addTodo\<close> creates them (the spread in \<^verbatim>\<open>toggleTodo\<close> keeps that order), an array
  with its elements separated by commas, and no white space anywhere.
\<close>

definition stringify_todo :: "Todo \<Rightarrow> jsstring" where
  "stringify_todo t =
     lit ''{'' @ QuoteJSONString (lit ''id'') @ lit '':'' @ QuoteJSONString (id_t t) @
     lit '','' @ QuoteJSONString (lit ''text'') @ lit '':'' @ QuoteJSONString (text_t t) @
     lit '','' @ QuoteJSONString (lit ''completed'') @ lit '':'' @
       (if completed t then lit ''true'' else lit ''false'') @
     lit '','' @ QuoteJSONString (lit ''createdAt'') @ lit '':'' @ Number_toString (createdAt t) @
     lit ''}''"

fun join_comma :: "jsstring list \<Rightarrow> jsstring" where
  "join_comma [] = []"
| "join_comma [x] = x"
| "join_comma (x # y # ys) = x @ 0x2C # join_comma (y # ys)"

definition JSON_stringify :: "Todo list \<Rightarrow> jsstring" where
  "JSON_stringify ts = 0x5B # join_comma (map stringify_todo ts) @ [0x5D]"


section \<open>JSON.parse\<close>

text \<open>
  \<^verbatim>\<open>JSON.parse\<close> is part of the platform as well. It is modelled after the JSON grammar
  of ECMA-262 and ECMA-404, on every text: a lexer from code units to tokens, and a parser
  from tokens to values that keeps a stack of the arrays and objects still open.

  A number literal without fraction and exponent whose value is an integer of magnitude
  at most \<open>MAX_SAFE_INTEGER\<close> denotes that integer, \<open>JNum\<close>. Every other number literal
  (and \<^verbatim>\<open>-0\<close>) denotes a floating-point number that this model does not compute: it is
  kept as its text, \<open>JDouble\<close>. An object is the list of its members as written; a property
  that occurs twice has the value of its last occurrence.
\<close>

datatype json =
    JNull
  | JBool bool
  | JNum int
  | JDouble jsstring
  | JStr jsstring
  | JArr "json list"
  | JObj "(jsstring \<times> json) list"

datatype token =
    T_LBrack | T_RBrack | T_LBrace | T_RBrace | T_Colon | T_Comma
  | T_Str jsstring | T_Num json | T_True | T_False | T_Null

text \<open>The lexer. White space between tokens is TAB, LF, CR and SP.\<close>

definition isJSONWhiteSpace :: "16 word \<Rightarrow> bool" where
  "isJSONWhiteSpace c \<longleftrightarrow> c = 0x9 \<or> c = 0xA \<or> c = 0xD \<or> c = 0x20"

definition isDigit :: "16 word \<Rightarrow> bool" where
  "isDigit c \<longleftrightarrow> 48 \<le> unat c \<and> unat c \<le> 57"

definition digits_value :: "jsstring \<Rightarrow> nat" where
  "digits_value ds = foldl (\<lambda>n c. 10 * n + (unat c - 48)) 0 ds"

definition hexval :: "16 word \<Rightarrow> nat option" where
  "hexval c =
     (let n = unat c in
      if 48 \<le> n \<and> n \<le> 57 then Some (n - 48)
      else if 97 \<le> n \<and> n \<le> 102 then Some (n - 87)
      else if 65 \<le> n \<and> n \<le> 70 then Some (n - 55)
      else None)"

definition unescape :: "16 word \<Rightarrow> 16 word option" where
  "unescape e =
     (if e = 0x22 then Some 0x22
      else if e = 0x5C then Some 0x5C
      else if e = 0x2F then Some 0x2F
      else if e = 0x62 then Some 0x8
      else if e = 0x66 then Some 0xC
      else if e = 0x6E then Some 0xA
      else if e = 0x72 then Some 0xD
      else if e = 0x74 then Some 0x9
      else None)"

text \<open>
  A string literal, read from behind its opening quote: the string it denotes and the text
  behind its closing quote. Code units below U+0020 must be escaped; an escape is a
  backslash and one of the characters \<^verbatim>\<open>" / b f n r t\<close> or a second backslash, or a
  backslash, \<^verbatim>\<open>u\<close> and four hexadecimal digits.
\<close>

definition lex_hex4 :: "jsstring \<Rightarrow> (16 word \<times> jsstring) option" where
  "lex_hex4 s =
     (case s of
        h1 # h2 # h3 # h4 # r \<Rightarrow>
          (case hexval h1 of
             None \<Rightarrow> None
           | Some a \<Rightarrow>
              (case hexval h2 of
                 None \<Rightarrow> None
               | Some b \<Rightarrow>
                  (case hexval h3 of
                     None \<Rightarrow> None
                   | Some c \<Rightarrow>
                      (case hexval h4 of
                         None \<Rightarrow> None
                       | Some d \<Rightarrow> Some (of_nat (4096 * a + 256 * b + 16 * c + d), r)))))
      | _ \<Rightarrow> None)"

definition lex_escape :: "jsstring \<Rightarrow> (16 word \<times> jsstring) option" where
  "lex_escape s =
     (case s of
        [] \<Rightarrow> None
      | e # r \<Rightarrow>
          if e = 0x75 then lex_hex4 r
          else (case unescape e of None \<Rightarrow> None | Some u \<Rightarrow> Some (u, r)))"

lemma lex_hex4_length: "lex_hex4 s = Some (u, r) \<Longrightarrow> length r < length s"
  by (auto simp: lex_hex4_def split: list.splits option.splits)

lemma lex_escape_length: "lex_escape s = Some (u, r) \<Longrightarrow> length r < length s"
  by (auto simp: lex_escape_def split: list.splits option.splits if_splits
           dest: lex_hex4_length)

function lex_string :: "jsstring \<Rightarrow> (jsstring \<times> jsstring) option" where
  "lex_string [] = None"
| "lex_string (c # cs) =
     (if c = 0x22 then Some ([], cs)
      else if c = 0x5C then
        (case lex_escape cs of
           None \<Rightarrow> None
         | Some (u, r) \<Rightarrow> map_option (apfst ((#) u)) (lex_string r))
      else if c < 0x20 then None
      else map_option (apfst ((#) c)) (lex_string cs))"
  by pat_completeness auto
termination
  by (relation "measure length") (auto dest: lex_escape_length)

text \<open>
  A number literal: an optional minus sign, an integer part without a leading zero (unless
  it is the single digit 0), an optional fraction and an optional exponent.
\<close>

definition lex_frac :: "jsstring \<Rightarrow> (jsstring \<times> jsstring) option" where
  "lex_frac s =
     (case s of
        [] \<Rightarrow> Some ([], s)
      | c # r \<Rightarrow>
          if c = 0x2E then
            (if takeWhile isDigit r = [] then None
             else Some (c # takeWhile isDigit r, dropWhile isDigit r))
          else Some ([], s))"

definition lex_sign :: "jsstring \<Rightarrow> jsstring \<times> jsstring" where
  "lex_sign s =
     (case s of
        [] \<Rightarrow> ([], s)
      | c # r \<Rightarrow> if c = 0x2B \<or> c = 0x2D then ([c], r) else ([], s))"

definition lex_exp :: "jsstring \<Rightarrow> (jsstring \<times> jsstring) option" where
  "lex_exp s =
     (case s of
        [] \<Rightarrow> Some ([], s)
      | c # r \<Rightarrow>
          if c = 0x65 \<or> c = 0x45 then
            (let (sg, r1) = lex_sign r in
             if takeWhile isDigit r1 = [] then None
             else Some (c # sg @ takeWhile isDigit r1, dropWhile isDigit r1))
          else Some ([], s))"

definition number_value :: "bool \<Rightarrow> jsstring \<Rightarrow> jsstring \<Rightarrow> jsstring \<Rightarrow> json" where
  "number_value neg ip fr ex =
     (if fr = [] \<and> ex = [] \<and> digits_value ip \<le> MAX_SAFE_INTEGER \<and> \<not> (neg \<and> digits_value ip = 0)
      then JNum (if neg then - int (digits_value ip) else int (digits_value ip))
      else JDouble ((if neg then [0x2D] else []) @ ip @ fr @ ex))"

definition lex_number :: "jsstring \<Rightarrow> (json \<times> jsstring) option" where
  "lex_number s =
     (let neg = (s \<noteq> [] \<and> hd s = 0x2D);
          s1 = (if neg then tl s else s);
          ip = takeWhile isDigit s1
      in if ip = [] \<or> (1 < length ip \<and> hd ip = 0x30) then None
         else case lex_frac (dropWhile isDigit s1) of
                None \<Rightarrow> None
              | Some (fr, s3) \<Rightarrow>
                 (case lex_exp s3 of
                    None \<Rightarrow> None
                  | Some (ex, s4) \<Rightarrow> Some (number_value neg ip fr ex, s4)))"

lemma lex_string_length: "lex_string s = Some (x, r) \<Longrightarrow> length r < length s"
proof (induction s arbitrary: x r rule: lex_string.induct)
  case 1
  then show ?case by simp
next
  case (2 c cs)
  show ?case
  proof (cases "c = 0x22")
    case True
    with "2.prems" show ?thesis by simp
  next
    case q: False
    show ?thesis
    proof (cases "c = 0x5C")
      case True
      with q "2.prems" obtain u r1 y where e: "lex_escape cs = Some (u, r1)"
        and l: "lex_string r1 = Some (y, r)"
        by (auto split: option.splits)
      from "2.IH"(1) [OF q True e refl l] lex_escape_length [OF e] show ?thesis by simp
    next
      case b: False
      with q "2.prems" have c: "\<not> c < 0x20" by (auto split: if_splits)
      with q b "2.prems" obtain y where l: "lex_string cs = Some (y, r)" by auto
      from "2.IH"(2) [OF q b c l] show ?thesis by simp
    qed
  qed
qed

lemma lex_frac_length: "lex_frac s = Some (x, r) \<Longrightarrow> length r \<le> length s"
  by (auto simp: lex_frac_def length_dropWhile_le le_SucI split: list.splits if_splits)

lemma lex_sign_length: "lex_sign s = (x, r) \<Longrightarrow> length r \<le> length s"
  by (auto simp: lex_sign_def split: list.splits if_splits)

lemma lex_exp_length: "lex_exp s = Some (x, r) \<Longrightarrow> length r \<le> length s"
proof -
  assume a: "lex_exp s = Some (x, r)"
  show ?thesis
  proof (cases s)
    case Nil
    with a show ?thesis by (simp add: lex_exp_def)
  next
    case (Cons c t)
    obtain sg r1 where sg: "lex_sign t = (sg, r1)" by (cases "lex_sign t")
    have "length (dropWhile isDigit r1) \<le> length r1" by (rule length_dropWhile_le)
    with lex_sign_length [OF sg] a Cons sg show ?thesis
      by (auto simp: lex_exp_def split: if_splits)
  qed
qed

lemma lex_number_length: "lex_number s = Some (v, r) \<Longrightarrow> length r < length s"
proof -
  assume a: "lex_number s = Some (v, r)"
  define s1 where "s1 = (if s \<noteq> [] \<and> hd s = 0x2D then tl s else s)"
  have ne: "takeWhile isDigit s1 \<noteq> []"
    using a by (auto simp: lex_number_def Let_def s1_def split: if_splits)
  obtain fr s3 where fr: "lex_frac (dropWhile isDigit s1) = Some (fr, s3)"
    using a by (auto simp: lex_number_def Let_def s1_def split: if_splits option.splits)
  obtain ex where ex: "lex_exp s3 = Some (ex, r)"
    using a fr by (auto simp: lex_number_def Let_def s1_def split: if_splits option.splits)
  have "length (takeWhile isDigit s1) + length (dropWhile isDigit s1) = length s1"
    by (metis length_append takeWhile_dropWhile_id)
  with ne have "length (dropWhile isDigit s1) < length s1"
    by (cases "takeWhile isDigit s1") auto
  moreover have "length s1 \<le> length s" by (simp add: s1_def)
  ultimately show ?thesis
    using lex_frac_length [OF fr] lex_exp_length [OF ex] by linarith
qed

function lex :: "jsstring \<Rightarrow> token list option" where
  "lex [] = Some []"
| "lex (c # cs) =
     (if isJSONWhiteSpace c then lex cs
      else if c = 0x5B then map_option ((#) T_LBrack) (lex cs)
      else if c = 0x5D then map_option ((#) T_RBrack) (lex cs)
      else if c = 0x7B then map_option ((#) T_LBrace) (lex cs)
      else if c = 0x7D then map_option ((#) T_RBrace) (lex cs)
      else if c = 0x3A then map_option ((#) T_Colon) (lex cs)
      else if c = 0x2C then map_option ((#) T_Comma) (lex cs)
      else if c = 0x22 then
        (case lex_string cs of
           None \<Rightarrow> None
         | Some (s, r) \<Rightarrow> map_option ((#) (T_Str s)) (lex r))
      else if c = 0x2D \<or> isDigit c then
        (case lex_number (c # cs) of
           None \<Rightarrow> None
         | Some (v, r) \<Rightarrow> map_option ((#) (T_Num v)) (lex r))
      else if take 4 (c # cs) = lit ''true'' then map_option ((#) T_True) (lex (drop 3 cs))
      else if take 5 (c # cs) = lit ''false'' then map_option ((#) T_False) (lex (drop 4 cs))
      else if take 4 (c # cs) = lit ''null'' then map_option ((#) T_Null) (lex (drop 3 cs))
      else None)"
  by pat_completeness auto
termination
  apply (relation "measure length")
  apply simp_all
  subgoal for c cs x2 x y using lex_string_length [of cs x y] by simp
  subgoal for c cs x2 x y using lex_number_length [of "c # cs" x y] by simp
  done

text \<open>
  The parser. A frame is an array or an object that is still open: the elements read so
  far (last one first), for an object also the key whose value is being read. The states say
  what may come next.
\<close>

datatype frame = ArrF "json list" | ObjF "(jsstring \<times> json) list" jsstring

datatype pstate =
    P_Value "frame list"
  | P_ArrStart "frame list"
  | P_ObjStart "frame list"
  | P_ArrNext "json list" "frame list"
  | P_ObjNext "(jsstring \<times> json) list" "frame list"
  | P_Key "(jsstring \<times> json) list" "frame list"
  | P_Colon "(jsstring \<times> json) list" jsstring "frame list"
  | P_Done json

fun deliver :: "json \<Rightarrow> frame list \<Rightarrow> pstate" where
  "deliver v [] = P_Done v"
| "deliver v (ArrF acc # stk) = P_ArrNext (v # acc) stk"
| "deliver v (ObjF acc k # stk) = P_ObjNext ((k, v) # acc) stk"

fun start_value :: "token \<Rightarrow> frame list \<Rightarrow> pstate option" where
  "start_value (T_Str s) stk = Some (deliver (JStr s) stk)"
| "start_value (T_Num v) stk = Some (deliver v stk)"
| "start_value T_True stk = Some (deliver (JBool True) stk)"
| "start_value T_False stk = Some (deliver (JBool False) stk)"
| "start_value T_Null stk = Some (deliver JNull stk)"
| "start_value T_LBrack stk = Some (P_ArrStart stk)"
| "start_value T_LBrace stk = Some (P_ObjStart stk)"
| "start_value _ stk = None"

fun pstep :: "pstate \<Rightarrow> token \<Rightarrow> pstate option" where
  "pstep (P_Value stk) t = start_value t stk"
| "pstep (P_ArrStart stk) t =
     (if t = T_RBrack then Some (deliver (JArr []) stk) else start_value t (ArrF [] # stk))"
| "pstep (P_ObjStart stk) t =
     (case t of
        T_RBrace \<Rightarrow> Some (deliver (JObj []) stk)
      | T_Str k \<Rightarrow> Some (P_Colon [] k stk)
      | _ \<Rightarrow> None)"
| "pstep (P_ArrNext acc stk) t =
     (case t of
        T_Comma \<Rightarrow> Some (P_Value (ArrF acc # stk))
      | T_RBrack \<Rightarrow> Some (deliver (JArr (rev acc)) stk)
      | _ \<Rightarrow> None)"
| "pstep (P_ObjNext acc stk) t =
     (case t of
        T_Comma \<Rightarrow> Some (P_Key acc stk)
      | T_RBrace \<Rightarrow> Some (deliver (JObj (rev acc)) stk)
      | _ \<Rightarrow> None)"
| "pstep (P_Key acc stk) t = (case t of T_Str k \<Rightarrow> Some (P_Colon acc k stk) | _ \<Rightarrow> None)"
| "pstep (P_Colon acc k stk) t =
     (case t of T_Colon \<Rightarrow> Some (P_Value (ObjF acc k # stk)) | _ \<Rightarrow> None)"
| "pstep (P_Done v) t = None"

fun parse_tokens :: "pstate \<Rightarrow> token list \<Rightarrow> pstate option" where
  "parse_tokens p [] = Some p"
| "parse_tokens p (t # ts) = (case pstep p t of None \<Rightarrow> None | Some p' \<Rightarrow> parse_tokens p' ts)"

text \<open>A text that is not JSON makes \<^verbatim>\<open>JSON.parse\<close> throw a \<^verbatim>\<open>SyntaxError\<close>.\<close>

datatype error = SyntaxError

definition JSON_parse :: "jsstring \<Rightarrow> error + json" where
  "JSON_parse s =
     (case lex s of
        None \<Rightarrow> Inl SyntaxError
      | Some ts \<Rightarrow>
         (case parse_tokens (P_Value []) ts of
            Some (P_Done v) \<Rightarrow> Inr v
          | _ \<Rightarrow> Inl SyntaxError))"

section \<open>Loading the collection\<close>

text \<open>
  The initialiser of the \<^verbatim>\<open>todos\<close> state:
  \<^verbatim>\<open>const saved = localStorage.getItem('todos'); return saved ? JSON.parse(saved) : [];\<close>
  \<^verbatim>\<open>getItem\<close> returns \<^verbatim>\<open>null\<close> when the key is absent, and both \<^verbatim>\<open>null\<close> and the
  empty string are falsy. The exception of \<^verbatim>\<open>JSON.parse\<close> is not caught.
\<close>

definition load :: "jsstring option \<Rightarrow> error + json" where
  "load saved =
     (case saved of
        None \<Rightarrow> Inr (JArr [])
      | Some s \<Rightarrow> if s = [] then Inr (JArr []) else JSON_parse s)"

text \<open>
  The initialiser's result is used at the type \<^verbatim>\<open>Todo[]\<close> without any check.
  \<open>as_todos\<close> reads a value at that type: an array of objects whose properties
  \<^verbatim>\<open>id\<close>, \<^verbatim>\<open>text\<close>, \<^verbatim>\<open>completed\<close> and \<^verbatim>\<open>createdAt\<close> are two strings, a boolean and
  an integer. It is \<open>None\<close> on the values that do not have the type (and on those whose
  \<^verbatim>\<open>createdAt\<close> is not an integer of this model); what the component does with such a
  value is not modelled. \<open>json_of_todo\<close> is the object of a \<^verbatim>\<open>Todo\<close>.
\<close>

definition property :: "(jsstring \<times> json) list \<Rightarrow> jsstring \<Rightarrow> json option" where
  "property ms k = map_of (rev ms) k"

fun as_todo :: "json \<Rightarrow> Todo option" where
  "as_todo (JObj ms) =
     (case (property ms (lit ''id''), property ms (lit ''text''),
            property ms (lit ''completed''), property ms (lit ''createdAt'')) of
        (Some (JStr i), Some (JStr t), Some (JBool c), Some (JNum n)) \<Rightarrow>
          Some \<lparr>id_t = i, text_t = t, completed = c, createdAt = n\<rparr>
      | _ \<Rightarrow> None)"
| "as_todo _ = None"

fun as_todos_list :: "json list \<Rightarrow> Todo list option" where
  "as_todos_list [] = Some []"
| "as_todos_list (v # vs) =
     (case as_todo v of
        None \<Rightarrow> None
      | Some t \<Rightarrow> map_option ((#) t) (as_todos_list vs))"

fun as_todos :: "json \<Rightarrow> Todo list option" where
  "as_todos (JArr vs) = as_todos_list vs"
| "as_todos _ = None"

definition json_of_todo :: "Todo \<Rightarrow> json" where
  "json_of_todo t =
     JObj [(lit ''id'', JStr (id_t t)), (lit ''text'', JStr (text_t t)),
           (lit ''completed'', JBool (completed t)), (lit ''createdAt'', JNum (createdAt t))]"

definition load_todos :: "jsstring option \<Rightarrow> Todo list option" where
  "load_todos saved = (case load saved of Inl e \<Rightarrow> None | Inr v \<Rightarrow> as_todos v)"

section \<open>The component state and its handlers\<close>

text \<open>
  The state of \<^verbatim>\<open>App\<close> is the three \<^verbatim>\<open>useState\<close> cells. The slot
  \<^verbatim>\<open>localStorage['todos']\<close> is part of the world the component acts on, and
  \<open>setItem_calls\<close> counts the calls of \<^verbatim>\<open>localStorage.setItem\<close>, so that a handler
  that writes nothing can be told from one that writes the same value again.
\<close>

record app =
  todos :: "Todo list"
  inputValue :: jsstring
  filter_t :: FilterType
  storage :: "jsstring option"
  setItem_calls :: nat

text \<open>
  The effect \<^verbatim>\<open>useEffect(() => localStorage.setItem('todos', JSON.stringify(todos)), [todos])\<close>
  runs after the first render and after every render in which \<^verbatim>\<open>todos\<close> is a new
  array. Every \<^verbatim>\<open>setTodos\<close> of the component passes a freshly built array, so the
  effect follows each of them.
\<close>

definition persist :: "app \<Rightarrow> app" where
  "persist st = st\<lparr>storage := Some (JSON_stringify (todos st)),
                  setItem_calls := Suc (setItem_calls st)\<rparr>"

definition setTodos :: "(Todo list \<Rightarrow> Todo list) \<Rightarrow> app \<Rightarrow> app" where
  "setTodos f st = persist (st\<lparr>todos := f (todos st)\<rparr>)"

definition setInputValue :: "jsstring \<Rightarrow> app \<Rightarrow> app" where
  "setInputValue v st = st\<lparr>inputValue := v\<rparr>"

definition setFilter :: "FilterType \<Rightarrow> app \<Rightarrow> app" where
  "setFilter f st = st\<lparr>filter_t := f\<rparr>"

text \<open>
  \<^verbatim>\<open>addTodo\<close>: the two values the platform supplies, \<^verbatim>\<open>crypto.randomUUID()\<close> and
  \<^verbatim>\<open>Date.now()\<close>, are arguments. The empty string is the only falsy string, so
  \<^verbatim>\<open>if (!inputValue.trim()) return\<close> leaves when the trimmed input is empty.
\<close>

definition addTodo :: "jsstring \<Rightarrow> int \<Rightarrow> app \<Rightarrow> app" where
  "addTodo uuid now st =
     (if trim (inputValue st) = [] then st
      else let newTodo = \<lparr>id_t = uuid, text_t = trim (inputValue st),
                           completed = False, createdAt = now\<rparr>
           in setInputValue [] (setTodos (\<lambda>prev. newTodo # prev) st))"

definition toggleTodo :: "jsstring \<Rightarrow> app \<Rightarrow> app" where
  "toggleTodo i st =
     setTodos (\<lambda>prev. map (\<lambda>todo. if id_t todo = i
                                   then todo\<lparr>completed := \<not> completed todo\<rparr> else todo) prev) st"

definition deleteTodo :: "jsstring \<Rightarrow> app \<Rightarrow> app" where
  "deleteTodo i st = setTodos (\<lambda>prev. filter (\<lambda>todo. id_t todo \<noteq> i) prev) st"

text \<open>The footer button: \<^verbatim>\<open>setTodos(prev => prev.filter(t => !t.completed))\<close>.\<close>

definition clearCompleted :: "app \<Rightarrow> app" where
  "clearCompleted st = setTodos (\<lambda>prev. filter (\<lambda>t. \<not> completed t) prev) st"

definition filteredTodos :: "app \<Rightarrow> Todo list" where
  "filteredTodos st =
     (case filter_t st of
        F_pending \<Rightarrow> filter (\<lambda>t. \<not> completed t) (todos st)
      | F_completed \<Rightarrow> filter (\<lambda>t. completed t) (todos st)
      | F_all \<Rightarrow> todos st)"

record Stats =
  total :: nat
  pending :: nat
  completed_count :: nat

definition stats :: "app \<Rightarrow> Stats" where
  "stats st = \<lparr>total = length (todos st),
               pending = length (filter (\<lambda>t. \<not> completed t) (todos st)),
               completed_count = length (filter (\<lambda>t. completed t) (todos st))\<rparr>"

text \<open>
  The events the rendered page sends to the handlers, and a run of the component over a
  sequence of them. \<open>Submit\<close> carries the identifier and the time the platform returns
  during that call.
\<close>

datatype event =
    Type jsstring
  | Submit jsstring int
  | ClickToggle jsstring
  | ClickDelete jsstring
  | ClickClear
  | ClickFilter FilterType

fun step :: "event \<Rightarrow> app \<Rightarrow> app" where
  "step (Type v) st = setInputValue v st"
| "step (Submit uuid now) st = addTodo uuid now st"
| "step (ClickToggle i) st = toggleTodo i st"
| "step (ClickDelete i) st = deleteTodo i st"
| "step ClickClear st = clearCompleted st"
| "step (ClickFilter f) st = setFilter f st"

fun run :: "event list \<Rightarrow> app \<Rightarrow> app" where
  "run [] st = st"
| "run (e # es) st = run es (step e st)"

text \<open>
  Mounting the component: the state cells get their initial values, \<^verbatim>\<open>todos\<close> the value
  of the initialiser, and the persistence effect runs once after the first render.
  \<open>mount\<close> is \<open>None\<close> when the initialiser throws or its value does not have the type
  \<^verbatim>\<open>Todo[]\<close>.
\<close>

definition initial :: "Todo list \<Rightarrow> jsstring option \<Rightarrow> app" where
  "initial ts saved =
     persist \<lparr>todos = ts, inputValue = [], filter_t = F_all, storage = saved, setItem_calls = 0\<rparr>"

definition mount :: "jsstring option \<Rightarrow> app option" where
  "mount saved = map_option (\<lambda>ts. initial ts saved) (load_todos saved)"

text \<open>
  \<open>fresh_ids es st\<close>: along the run of \<open>es\<close> from \<open>st\<close>, every identifier that
  \<^verbatim>\<open>crypto.randomUUID()\<close> returns to \<^verbatim>\<open>addTodo\<close> is the identifier of no task of the
  collection at that moment. (A submit with blank input returns before the call.)
\<close>

fun fresh_ids :: "event list \<Rightarrow> app \<Rightarrow> bool" where
  "fresh_ids [] st = True"
| "fresh_ids (Submit uuid now # es) st =
     ((trim (inputValue st) = [] \<or> uuid \<notin> set (map id_t (todos st))) \<and>
      fresh_ids es (step (Submit uuid now) st))"
| "fresh_ids (e # es) st = fresh_ids es (step e st)"

section \<open>Example values\<close>

definition ex_old :: Todo where
  "ex_old = \<lparr>id_t = lit ''a'', text_t = lit ''Old'', completed = True, createdAt = 1\<rparr>"

definition ex_typing :: app where
  "ex_typing = \<lparr>todos = [ex_old], inputValue = lit ''  Buy milk '', filter_t = F_all,
                storage = None, setItem_calls = 0\<rparr>"

definition ex_blank :: app where
  "ex_blank = \<lparr>todos = [ex_old], inputValue = lit ''   '', filter_t = F_all,
               storage = None, setItem_calls = 0\<rparr>"

text \<open>A collection in which two tasks have the identifier \<^verbatim>\<open>a\<close>.\<close>

definition ex_twins :: "Todo list" where
  "ex_twins = [\<lparr>id_t = lit ''a'', text_t = lit ''one'', completed = False, createdAt = 3\<rparr>,
               \<lparr>id_t = lit ''b'', text_t = lit ''two'', completed = False, createdAt = 2\<rparr>,
               \<lparr>id_t = lit ''a'', text_t = lit ''three'', completed = True, createdAt = 1\<rparr>]"

definition ex_dup :: app where
  "ex_dup = \<lparr>todos = ex_twins, inputValue = [], filter_t = F_all, storage = None,
             setItem_calls = 0\<rparr>"

definition ex_twins_saved :: jsstring where
  \<open>ex_twins_saved = lit ''[{"id":"a","text":"one","completed":false,"createdAt":3},{"id":"b","text":"two","completed":false,"createdAt":2},{"id":"a","text":"three","completed":true,"createdAt":1}]''\<close>

definition ex_pair :: "Todo list" where
  "ex_pair = [\<lparr>id_t = lit ''a'', text_t = lit ''one'', completed = False, createdAt = 1700000000000\<rparr>,
              \<lparr>id_t = lit ''b'', text_t = lit ''two'', completed = True, createdAt = 2\<rparr>]"

definition ex_pair_saved :: jsstring where
  \<open>ex_pair_saved = lit ''[{"id":"a","text":"one","completed":false,"createdAt":1700000000000},{"id":"b","text":"two","completed":true,"createdAt":2}]''\<close>

section \<open>Saving and loading again\<close>

text \<open>
  The text that \<^verbatim>\<open>JSON.stringify\<close> writes for a collection is read back by
  \<^verbatim>\<open>JSON.parse\<close> as the array of the tasks' objects. First strings: the lexer undoes
  \<open>QuoteJSONString\<close>.
\<close>

lemma unat_lt_65536: "unat (c :: 16 word) < 65536"
  using unsigned_less [of c, where 'a = nat] by simp

lemma unat_of_nat_16: "n < 65536 \<Longrightarrow> unat (of_nat n :: 16 word) = n"
  by (simp add: unat_of_nat)

lemma hex_recombine:
  "4096 * (n div 4096) + 256 * (n div 256 mod 16) + 16 * (n div 16 mod 16) + n mod 16 = (n::nat)"
proof -
  have a: "n div 256 = n div 16 div 16" and b: "n div 4096 = n div 16 div 16 div 16"
    by (simp_all add: div_mult2_eq [symmetric])
  have 1: "16 * (n div 16) + n mod 16 = n" by simp
  have 2: "16 * (n div 16 div 16) + n div 16 mod 16 = n div 16" by simp
  have 3: "16 * (n div 16 div 16 div 16) + n div 16 div 16 mod 16 = n div 16 div 16" by simp
  show ?thesis unfolding a b using 1 2 3 by linarith
qed

lemma hexval_hexdigit: "d < 16 \<Longrightarrow> hexval (hexdigit d) = Some d"
  by (auto simp: hexval_def hexdigit_def unat_of_nat_16 Let_def)

lemma lex_hex4_UnicodeEscape:
  "lex_hex4 (hexdigit (unat c div 4096) # hexdigit (unat c div 256 mod 16) #
             hexdigit (unat c div 16 mod 16) # hexdigit (unat c mod 16) # rest) = Some (c, rest)"
proof -
  have "unat c div 4096 < 16" using unat_lt_65536 [of c] by simp
  then show ?thesis
    by (simp add: lex_hex4_def hexval_hexdigit hex_recombine)
qed

lemma lex_string_UnicodeEscape:
  "lex_string (UnicodeEscape c @ rest) = map_option (apfst ((#) c)) (lex_string rest)"
  by (simp add: UnicodeEscape_def lex_escape_def lex_hex4_UnicodeEscape)

lemma surrogate_literal:
  "isLeadingSurrogate c \<or> isTrailingSurrogate c \<Longrightarrow> c \<noteq> 0x22 \<and> c \<noteq> 0x5C \<and> \<not> c < 0x20"
  by (auto simp: isLeadingSurrogate_def isTrailingSurrogate_def word_le_nat_alt word_less_nat_alt)

lemma lex_string_quote_unit:
  "lex_string (quote_unit c @ rest) = map_option (apfst ((#) c)) (lex_string rest)"
  by (simp add: quote_unit_def lex_string_UnicodeEscape lex_escape_def unescape_def)

lemma lex_string_quote_units:
  "lex_string (quote_units s @ 0x22 # rest) = Some (s, rest)"
proof (induction s rule: quote_units.induct)
  case 1
  show ?case by simp
next
  case (2 c)
  show ?case by (simp add: lex_string_quote_unit)
next
  case (3 c d cs)
  show ?case
  proof (cases "isLeadingSurrogate c \<and> isTrailingSurrogate d")
    case True
    with surrogate_literal [of c] surrogate_literal [of d] "3.IH"(1) show ?thesis by simp
  next
    case False
    then have "quote_units (c # d # cs) @ 0x22 # rest =
               quote_unit c @ (quote_units (d # cs) @ 0x22 # rest)"
      by auto
    then show ?thesis
      using "3.IH"(2) [OF False] by (simp only: lex_string_quote_unit) simp
  qed
qed

lemma lex_QuoteJSONString:
  "lex (QuoteJSONString s @ rest) = map_option ((#) (T_Str s)) (lex rest)"
  by (simp add: QuoteJSONString_def isJSONWhiteSpace_def lex_string_quote_units)

text \<open>Numbers: the lexer reads the digits of a safe integer back as that integer.\<close>

lemma digit_unit: "k < 10 \<Longrightarrow> isDigit (of_nat (48 + k)) \<and> unat (of_nat (48 + k) :: 16 word) - 48 = k"
  using unat_of_nat_16 [of "48 + k"] by (simp add: isDigit_def)

lemma digits_all_digit: "c \<in> set (digits n) \<Longrightarrow> isDigit c"
proof (induction n rule: digits.induct)
  case (1 n)
  show ?case
  proof (cases "n < 10")
    case True
    with "1.prems" digit_unit [of n] show ?thesis by (simp add: digits.simps [of n])
  next
    case False
    have "n mod 10 < 10" by simp
    with False "1.prems" "1.IH" digit_unit [of "n mod 10"] show ?thesis
      by (auto simp: digits.simps [of n])
  qed
qed

lemma digits_nonempty: "digits n \<noteq> []"
  by (subst digits.simps) simp

lemma digits_value_snoc: "digits_value (ds @ [c]) = 10 * digits_value ds + (unat c - 48)"
  by (simp add: digits_value_def)

lemma digits_value_digits: "digits_value (digits n) = n"
proof (induction n rule: digits.induct)
  case (1 n)
  show ?case
  proof (cases "n < 10")
    case True
    with digit_unit [of n] show ?thesis by (simp add: digits.simps [of n] digits_value_def)
  next
    case False
    have "n mod 10 < 10" by simp
    with False "1.IH" digit_unit [of "n mod 10"] show ?thesis
      by (simp add: digits.simps [of n] digits_value_snoc)
  qed
qed

lemma digits_hd_nonzero: "0 < n \<Longrightarrow> hd (digits n) \<noteq> 0x30"
proof (induction n rule: digits.induct)
  case (1 n)
  show ?case
  proof (cases "n < 10")
    case True
    have "unat (of_nat (48 + n) :: 16 word) = 48 + n" using True unat_of_nat_16 [of "48 + n"] by simp
    with "1.prems" have "(of_nat (48 + n) :: 16 word) \<noteq> 0x30" by auto
    with True show ?thesis by (simp add: digits.simps [of n])
  next
    case False
    then have "0 < n div 10" by simp
    with False "1.IH" show ?thesis
      by (simp add: digits.simps [of n] digits_nonempty)
  qed
qed

lemma digits_no_leading_zero: "\<not> (1 < length (digits n) \<and> hd (digits n) = 0x30)"
proof (cases "n < 10")
  case True
  then show ?thesis by (simp add: digits.simps [of n])
next
  case False
  then show ?thesis using digits_hd_nonzero [of n] by simp
qed

lemma not_digit_close: "\<not> isDigit 0x7D" "\<not> isDigit 0x2D"
  by (simp_all add: isDigit_def)

lemma takeWhile_digits: "takeWhile isDigit (digits n @ 0x7D # rest) = digits n"
  by (simp add: digits_all_digit not_digit_close)

lemma dropWhile_digits: "dropWhile isDigit (digits n @ 0x7D # rest) = 0x7D # rest"
  by (simp add: digits_all_digit not_digit_close)

lemma digits_hd_digit: "isDigit (hd (digits n))"
  using digits_all_digit [of "hd (digits n)" n] digits_nonempty [of n] by simp

lemma lex_number_digits_pos:
  assumes "m \<le> MAX_SAFE_INTEGER"
  shows "lex_number (digits m @ 0x7D # rest) = Some (JNum (int m), 0x7D # rest)"
proof -
  have h: "hd (digits m @ 0x7D # rest) \<noteq> 0x2D"
    using digits_hd_digit [of m] digits_nonempty [of m] not_digit_close(2) by auto
  show ?thesis
    using assms h digits_no_leading_zero [of m]
    by (simp add: lex_number_def Let_def takeWhile_digits dropWhile_digits digits_nonempty
          lex_frac_def lex_exp_def number_value_def digits_value_digits)
qed

lemma lex_number_digits_neg:
  assumes "m \<le> MAX_SAFE_INTEGER" "0 < m"
  shows "lex_number (0x2D # digits m @ 0x7D # rest) = Some (JNum (- int m), 0x7D # rest)"
  using assms digits_no_leading_zero [of m]
  by (simp add: lex_number_def Let_def takeWhile_digits dropWhile_digits digits_nonempty
        lex_frac_def lex_exp_def number_value_def digits_value_digits)

lemma lex_number_Number_toString:
  assumes "\<bar>n\<bar> \<le> int MAX_SAFE_INTEGER"
  shows "lex_number (Number_toString n @ 0x7D # rest) = Some (JNum n, 0x7D # rest)"
proof (cases "n < 0")
  case True
  with assms have "nat (- n) \<le> MAX_SAFE_INTEGER" "0 < nat (- n)" by auto
  from lex_number_digits_neg [OF this, of rest] True show ?thesis
    by (simp add: Number_toString_def)
next
  case False
  with assms have "nat n \<le> MAX_SAFE_INTEGER" by auto
  from lex_number_digits_pos [OF this, of rest] False show ?thesis
    by (simp add: Number_toString_def)
qed

lemma lex_number_start:
  assumes "c = 0x2D \<or> isDigit c"
  shows "lex (c # cs) =
           (case lex_number (c # cs) of
              None \<Rightarrow> None
            | Some (v, r) \<Rightarrow> map_option ((#) (T_Num v)) (lex r))"
proof -
  have "\<not> isJSONWhiteSpace c \<and> c \<noteq> 0x5B \<and> c \<noteq> 0x5D \<and> c \<noteq> 0x7B \<and> c \<noteq> 0x7D \<and> c \<noteq> 0x3A
        \<and> c \<noteq> 0x2C \<and> c \<noteq> 0x22"
    using assms by (auto simp: isDigit_def isJSONWhiteSpace_def)
  with assms show ?thesis by simp
qed

lemma lex_Number_toString:
  assumes "\<bar>n\<bar> \<le> int MAX_SAFE_INTEGER"
  shows "lex (Number_toString n @ 0x7D # rest) =
           map_option ((#) (T_Num (JNum n))) (lex (0x7D # rest))"
proof -
  obtain c cs where s: "Number_toString n @ 0x7D # rest = c # cs" and c: "c = 0x2D \<or> isDigit c"
  proof (cases "n < 0")
    case True
    then show ?thesis using that by (simp add: Number_toString_def)
  next
    case False
    obtain d ds where "digits (nat n) = d # ds"
      using digits_nonempty [of "nat n"] by (cases "digits (nat n)") auto
    moreover from this have "isDigit d" using digits_hd_digit [of "nat n"] by simp
    ultimately show ?thesis using that False by (simp add: Number_toString_def)
  qed
  from lex_number_start [OF c, of cs] lex_number_Number_toString [OF assms, of rest] s
  show ?thesis by simp
qed

text \<open>The tokens of a serialised task and of a serialised collection.\<close>

definition todo_tokens :: "Todo \<Rightarrow> token list" where
  "todo_tokens t =
     [T_LBrace, T_Str (lit ''id''), T_Colon, T_Str (id_t t), T_Comma,
      T_Str (lit ''text''), T_Colon, T_Str (text_t t), T_Comma,
      T_Str (lit ''completed''), T_Colon, (if completed t then T_True else T_False), T_Comma,
      T_Str (lit ''createdAt''), T_Colon, T_Num (JNum (createdAt t)), T_RBrace]"

fun join_tokens :: "Todo list \<Rightarrow> token list" where
  "join_tokens [] = []"
| "join_tokens [t] = todo_tokens t"
| "join_tokens (t # u # ts) = todo_tokens t @ T_Comma # join_tokens (u # ts)"

lemma lex_punct:
  "lex (0x7B # s) = map_option ((#) T_LBrace) (lex s)"
  "lex (0x7D # s) = map_option ((#) T_RBrace) (lex s)"
  "lex (0x5B # s) = map_option ((#) T_LBrack) (lex s)"
  "lex (0x5D # s) = map_option ((#) T_RBrack) (lex s)"
  "lex (0x3A # s) = map_option ((#) T_Colon) (lex s)"
  "lex (0x2C # s) = map_option ((#) T_Comma) (lex s)"
  by (simp_all add: isJSONWhiteSpace_def)

lemma lex_true: "lex (lit ''true'' @ s) = map_option ((#) T_True) (lex s)"
  by (simp add: lit_def isJSONWhiteSpace_def isDigit_def)

lemma lex_false: "lex (lit ''false'' @ s) = map_option ((#) T_False) (lex s)"
  by (simp add: lit_def isJSONWhiteSpace_def isDigit_def)

lemma lit_punct:
  "lit ''{'' = [0x7B]" "lit ''}'' = [0x7D]" "lit '':'' = [0x3A]" "lit '','' = [0x2C]"
  by (simp_all add: lit_def)

lemma lex_stringify_todo:
  assumes "safe_createdAt t"
  shows "lex (stringify_todo t @ rest) = map_option ((@) (todo_tokens t)) (lex rest)"
proof -
  have n: "lex (Number_toString (createdAt t) @ 0x7D # rest) =
           map_option ((#) (T_Num (JNum (createdAt t)))) (lex (0x7D # rest))"
    using assms by (simp only: safe_createdAt_def lex_Number_toString)
  have b: "lex ((if completed t then lit ''true'' else lit ''false'') @ s) =
           map_option ((#) (if completed t then T_True else T_False)) (lex s)" for s
    by (cases "completed t") (simp_all only: lex_true lex_false if_True if_False)
  have "lex (stringify_todo t @ rest) =
        map_option ((#) T_LBrace) (map_option ((#) (T_Str (lit ''id''))) (map_option ((#) T_Colon)
       (map_option ((#) (T_Str (id_t t))) (map_option ((#) T_Comma)
       (map_option ((#) (T_Str (lit ''text''))) (map_option ((#) T_Colon)
       (map_option ((#) (T_Str (text_t t))) (map_option ((#) T_Comma)
       (map_option ((#) (T_Str (lit ''completed''))) (map_option ((#) T_Colon)
       (map_option ((#) (if completed t then T_True else T_False)) (map_option ((#) T_Comma)
       (map_option ((#) (T_Str (lit ''createdAt''))) (map_option ((#) T_Colon)
       (map_option ((#) (T_Num (JNum (createdAt t)))) (map_option ((#) T_RBrace)
         (lex rest)))))))))))))))))"
    unfolding stringify_todo_def lit_punct
    by (simp only: lex_punct lex_QuoteJSONString b n append_Cons append_Nil append_assoc)
  then show ?thesis
    by (cases "lex rest") (simp_all add: todo_tokens_def)
qed

lemma lex_join_comma:
  assumes "\<forall>t \<in> set ts. safe_createdAt t"
  shows "lex (join_comma (map stringify_todo ts) @ rest) = map_option ((@) (join_tokens ts)) (lex rest)"
  using assms
proof (induction ts rule: join_tokens.induct)
  case 1
  show ?case by (cases "lex rest") simp_all
next
  case (2 t)
  then show ?case by (simp add: lex_stringify_todo)
next
  case (3 t u ts)
  then have IH: "lex (join_comma (map stringify_todo (u # ts)) @ rest) =
                 map_option ((@) (join_tokens (u # ts))) (lex rest)"
    and t: "safe_createdAt t"
    by simp_all
  have "lex (join_comma (map stringify_todo (t # u # ts)) @ rest) =
        lex (stringify_todo t @ 0x2C # (join_comma (map stringify_todo (u # ts)) @ rest))"
    by simp
  also have "\<dots> = map_option ((@) (todo_tokens t))
                     (map_option ((#) T_Comma) (map_option ((@) (join_tokens (u # ts))) (lex rest)))"
    by (simp only: lex_stringify_todo [OF t] lex_punct IH)
  also have "\<dots> = map_option ((@) (join_tokens (t # u # ts))) (lex rest)"
    by (cases "lex rest") simp_all
  finally show ?case .
qed

lemma lex_JSON_stringify:
  assumes "\<forall>t \<in> set ts. safe_createdAt t"
  shows "lex (JSON_stringify ts) = Some (T_LBrack # join_tokens ts @ [T_RBrack])"
proof -
  have "lex (JSON_stringify ts) =
        map_option ((#) T_LBrack) (lex (join_comma (map stringify_todo ts) @ [0x5D]))"
    by (simp only: JSON_stringify_def lex_punct)
  also have "\<dots> = map_option ((#) T_LBrack) (map_option ((@) (join_tokens ts)) (lex [0x5D]))"
    by (simp only: lex_join_comma [OF assms])
  also have "\<dots> = Some (T_LBrack # join_tokens ts @ [T_RBrack])"
    by (simp only: lex_punct lex.simps(1)) simp
  finally show ?thesis .
qed

lemma parse_tokens_append:
  "parse_tokens p (ts @ us) = (case parse_tokens p ts of None \<Rightarrow> None | Some q \<Rightarrow> parse_tokens q us)"
  by (induction ts arbitrary: p) (auto split: option.splits)

lemma parse_todo_tokens:
  "parse_tokens (P_Value (ArrF acc # stk)) (todo_tokens t) =
     Some (P_ArrNext (json_of_todo t # acc) stk)"
  by (simp add: todo_tokens_def json_of_todo_def)

lemma parse_join_tokens:
  "parse_tokens (P_Value (ArrF acc # stk)) (join_tokens (t # ts)) =
     Some (P_ArrNext (rev (map json_of_todo (t # ts)) @ acc) stk)"
proof (induction ts arbitrary: t acc)
  case Nil
  show ?case by (simp add: parse_todo_tokens)
next
  case (Cons u ts)
  show ?case
    by (simp add: parse_tokens_append parse_todo_tokens Cons.IH)
qed

lemma join_tokens_start:
  "parse_tokens (P_ArrStart stk) (join_tokens (t # ts)) =
   parse_tokens (P_Value (ArrF [] # stk)) (join_tokens (t # ts))"
  by (cases ts) (simp_all add: todo_tokens_def)

lemma parse_array_tokens:
  "parse_tokens (P_Value []) (T_LBrack # join_tokens ts @ [T_RBrack]) =
     Some (P_Done (JArr (map json_of_todo ts)))"
proof (cases ts)
  case Nil
  then show ?thesis by simp
next
  case (Cons t ts')
  have "parse_tokens (P_Value []) (T_LBrack # join_tokens ts @ [T_RBrack]) =
        parse_tokens (P_ArrStart []) (join_tokens (t # ts') @ [T_RBrack])"
    using Cons by simp
  also have "\<dots> = parse_tokens (P_ArrNext (rev (map json_of_todo (t # ts'))) []) [T_RBrack]"
    by (simp only: parse_tokens_append join_tokens_start parse_join_tokens option.case append_Nil2)
  also have "\<dots> = Some (P_Done (JArr (map json_of_todo ts)))"
    using Cons by simp
  finally show ?thesis .
qed

lemma JSON_parse_stringify:
  assumes "\<forall>t \<in> set ts. safe_createdAt t"
  shows "JSON_parse (JSON_stringify ts) = Inr (JArr (map json_of_todo ts))"
  unfolding JSON_parse_def lex_JSON_stringify [OF assms] option.case parse_array_tokens
  by simp

lemma as_todo_json_of_todo: "as_todo (json_of_todo t) = Some t"
  by (simp add: json_of_todo_def property_def lit_def)

lemma as_todos_list_json: "as_todos_list (map json_of_todo ts) = Some ts"
  by (induction ts) (simp_all add: as_todo_json_of_todo)

lemma JSON_stringify_nonempty: "JSON_stringify ts \<noteq> []"
  by (simp add: JSON_stringify_def)

lemma load_stringify:
  assumes "\<forall>t \<in> set ts. safe_createdAt t"
  shows "load (Some (JSON_stringify ts)) = Inr (JArr (map json_of_todo ts))"
  by (simp add: load_def JSON_stringify_nonempty JSON_parse_stringify [OF assms])

lemma load_todos_stringify:
  assumes "\<forall>t \<in> set ts. safe_createdAt t"
  shows "load_todos (Some (JSON_stringify ts)) = Some ts"
  by (simp add: load_todos_def load_stringify [OF assms] as_todos_list_json)

section \<open>Properties of the handlers\<close>

lemma todos_persist [simp]: "todos (persist st) = todos st"
  by (simp add: persist_def)

lemma todos_setTodos [simp]: "todos (setTodos f st) = f (todos st)"
  by (simp add: setTodos_def)

lemma length_filter_split:
  "length (filter (\<lambda>t. \<not> P t) xs) + length (filter P xs) = length xs"
  by (induction xs) auto

lemma toggle_map_absent:
  "i \<notin> id_t ` set xs \<Longrightarrow>
   map (\<lambda>todo. if id_t todo = i then todo\<lparr>completed := \<not> completed todo\<rparr> else todo) xs = xs"
  by (induction xs) auto

lemma toggle_map_twice:
  "map (\<lambda>todo. if id_t todo = i then todo\<lparr>completed := \<not> completed todo\<rparr> else todo)
     (map (\<lambda>todo. if id_t todo = i then todo\<lparr>completed := \<not> completed todo\<rparr> else todo) xs) = xs"
  by (induction xs) auto

lemma toggle_map_ids:
  "map id_t (map (\<lambda>todo. if id_t todo = i then todo\<lparr>completed := \<not> completed todo\<rparr> else todo) xs) =
   map id_t xs"
  by (induction xs) auto

lemma step_keeps_distinct:
  assumes "distinct (map id_t (todos st))" and "fresh_ids [e] st"
  shows "distinct (map id_t (todos (step e st)))"
proof (cases e)
  case (Type v)
  with assms show ?thesis by (simp add: setInputValue_def)
next
  case (Submit uuid now)
  with assms show ?thesis
    by (auto simp: addTodo_def setInputValue_def)
next
  case (ClickToggle i)
  with assms show ?thesis by (simp add: toggleTodo_def toggle_map_ids del: map_map)
next
  case (ClickDelete i)
  with assms show ?thesis by (simp add: deleteTodo_def distinct_map_filter)
next
  case ClickClear
  with assms show ?thesis by (simp add: clearCompleted_def distinct_map_filter)
next
  case (ClickFilter f)
  with assms show ?thesis by (simp add: setFilter_def)
qed

lemma fresh_ids_Cons: "fresh_ids (e # es) st \<longleftrightarrow> fresh_ids [e] st \<and> fresh_ids es (step e st)"
  by (cases e) simp_all

lemma run_keeps_distinct:
  "distinct (map id_t (todos st)) \<Longrightarrow> fresh_ids es st \<Longrightarrow> distinct (map id_t (todos (run es st)))"
proof (induction es arbitrary: st)
  case Nil
  then show ?case by simp
next
  case (Cons e es)
  from Cons.prems(2) have f: "fresh_ids [e] st" and r: "fresh_ids es (step e st)"
    by (simp_all only: fresh_ids_Cons [of e es st])
  from step_keeps_distinct [OF Cons.prems(1) f] r show ?case
    by (simp add: Cons.IH)
qed

lemma load_ex_twins_saved: "load_todos (Some ex_twins_saved) = Some ex_twins"
  by (simp add: load_todos_def load_def JSON_parse_def ex_twins_saved_def ex_twins_def lit_def
        isJSONWhiteSpace_def isDigit_def lex_escape_def lex_number_def lex_frac_def lex_exp_def
        number_value_def digits_value_def MAX_SAFE_INTEGER_def Let_def property_def)

lemma load_ex_pair_saved: "load_todos (Some ex_pair_saved) = Some ex_pair"
  by (simp add: load_todos_def load_def JSON_parse_def ex_pair_saved_def ex_pair_def lit_def
        isJSONWhiteSpace_def isDigit_def lex_escape_def lex_number_def lex_frac_def lex_exp_def
        number_value_def digits_value_def MAX_SAFE_INTEGER_def Let_def property_def)

section \<open>The claims\<close>

text \<open>
  C1. Whatever events the component has processed, from whatever state, the three
  counters it shows satisfy pending + completed = total: total is the length of the
  collection, pending the number of tasks that are not completed and completed the number
  of those that are.
\<close>

theorem stats_partition:
  "pending (stats (run es st)) + completed_count (stats (run es st)) = total (stats (run es st))
   \<and> total (stats (run es st)) = length (todos (run es st))
   \<and> pending (stats (run es st)) = length (filter (\<lambda>t. completed t = False) (todos (run es st)))
   \<and> completed_count (stats (run es st)) = length (filter (\<lambda>t. completed t = True) (todos (run es st)))"
  by (simp add: stats_def length_filter_split)

text \<open>
  C2. When the trimmed input is not empty, \<^verbatim>\<open>addTodo\<close> puts in front of the collection
  a new task with the identifier the generator returned, the trimmed input as text,
  \<^verbatim>\<open>completed = false\<close> and \<^verbatim>\<open>createdAt = now\<close>; the tasks that were there follow in their
  order. With the filter \<^verbatim>\<open>all\<close> the rendered list is that same list. When the generated
  identifier is fresh, the new task is the only one that carries it.
\<close>

theorem addTodo_prepends:
  assumes "trim (inputValue st) \<noteq> []"
  shows "todos (addTodo uuid now st) =
           \<lparr>id_t = uuid, text_t = trim (inputValue st), completed = False, createdAt = now\<rparr> # todos st
       \<and> (filter_t st = F_all \<longrightarrow>
            filteredTodos (addTodo uuid now st) =
              \<lparr>id_t = uuid, text_t = trim (inputValue st), completed = False, createdAt = now\<rparr> # todos st)
       \<and> (uuid \<notin> id_t ` set (todos st) \<longrightarrow>
            filter (\<lambda>t. id_t t = uuid) (todos (addTodo uuid now st)) =
              [\<lparr>id_t = uuid, text_t = trim (inputValue st), completed = False, createdAt = now\<rparr>])"
proof -
  let ?new = "\<lparr>id_t = uuid, text_t = trim (inputValue st), completed = False, createdAt = now\<rparr>"
  have t: "todos (addTodo uuid now st) = ?new # todos st"
    using assms by (simp add: addTodo_def setInputValue_def)
  have f: "filter_t (addTodo uuid now st) = filter_t st"
    by (simp add: addTodo_def setInputValue_def setTodos_def persist_def Let_def)
  have u: "filter (\<lambda>t. id_t t = uuid) (todos st) = []" if "uuid \<notin> id_t ` set (todos st)"
    using that by (induction "todos st") (auto simp: filter_empty_conv)
  show ?thesis
    using t f u by (simp add: filteredTodos_def)
qed

theorem addTodo_prepends_witness:
  "trim (inputValue ex_typing) = lit ''Buy milk'' \<and> lit ''Buy milk'' \<noteq> [] \<and>
   filter_t ex_typing = F_all \<and> lit ''b'' \<notin> id_t ` set (todos ex_typing) \<and>
   todos (addTodo (lit ''b'') 2 ex_typing) =
     [\<lparr>id_t = lit ''b'', text_t = lit ''Buy milk'', completed = False, createdAt = 2\<rparr>, ex_old] \<and>
   filteredTodos (addTodo (lit ''b'') 2 ex_typing) =
     [\<lparr>id_t = lit ''b'', text_t = lit ''Buy milk'', completed = False, createdAt = 2\<rparr>, ex_old] \<and>
   filter (\<lambda>t. id_t t = lit ''b'') (todos (addTodo (lit ''b'') 2 ex_typing)) =
     [\<lparr>id_t = lit ''b'', text_t = lit ''Buy milk'', completed = False, createdAt = 2\<rparr>]"
proof -
  have tr: "trim (inputValue ex_typing) = lit ''Buy milk''"
    by (simp add: ex_typing_def trim_def lit_def isWhiteSpace_def)
  have ne: "lit ''Buy milk'' \<noteq> []" by (simp add: lit_def)
  have fl: "filter_t ex_typing = F_all" by (simp add: ex_typing_def)
  have fr: "lit ''b'' \<notin> id_t ` set (todos ex_typing)"
    by (simp add: ex_typing_def ex_old_def lit_def)
  have td: "todos ex_typing = [ex_old]" by (simp add: ex_typing_def)
  from tr ne have h: "trim (inputValue ex_typing) \<noteq> []" by simp
  from addTodo_prepends [OF h, of "lit ''b''" 2] tr ne fl fr td show ?thesis by simp
qed

text \<open>
  C3. When the trimmed input is empty, \<^verbatim>\<open>addTodo\<close> returns the state it was given: no
  task is created, the collection and its size are unchanged, and \<^verbatim>\<open>localStorage\<close> is
  not written.
\<close>

theorem addTodo_blank_noop:
  assumes "trim (inputValue st) = []"
  shows "addTodo uuid now st = st
       \<and> todos (addTodo uuid now st) = todos st
       \<and> total (stats (addTodo uuid now st)) = total (stats st)
       \<and> storage (addTodo uuid now st) = storage st
       \<and> setItem_calls (addTodo uuid now st) = setItem_calls st"
  using assms by (simp add: addTodo_def)

theorem addTodo_blank_noop_witness:
  "trim (inputValue ex_blank) = [] \<and> inputValue ex_blank = lit ''   '' \<and>
   addTodo (lit ''b'') 2 ex_blank = ex_blank \<and>
   trim (inputValue (setInputValue [] ex_blank)) = [] \<and>
   addTodo (lit ''b'') 2 (setInputValue [] ex_blank) = setInputValue [] ex_blank"
proof -
  have tr: "trim (inputValue ex_blank) = []" "trim (inputValue (setInputValue [] ex_blank)) = []"
    by (simp_all add: ex_blank_def setInputValue_def trim_def lit_def isWhiteSpace_def)
  have iv: "inputValue ex_blank = lit ''   ''" by (simp add: ex_blank_def)
  from addTodo_blank_noop [OF tr(1), of "lit ''b''" 2]
       addTodo_blank_noop [OF tr(2), of "lit ''b''" 2] tr iv
  show ?thesis by simp
qed

text \<open>
  C4. \<^verbatim>\<open>toggleTodo\<close> keeps the length of the collection and, at every position, the
  identifier, the text and the creation time of the task; it negates \<^verbatim>\<open>completed\<close> at
  the positions whose task has the given identifier and leaves the task at every other
  position as it was. When no task has the identifier, the collection is unchanged.
\<close>

theorem toggleTodo_frame:
  "length (todos (toggleTodo i st)) = length (todos st)
   \<and> (\<forall>k < length (todos st).
         id_t (todos (toggleTodo i st) ! k) = id_t (todos st ! k)
       \<and> text_t (todos (toggleTodo i st) ! k) = text_t (todos st ! k)
       \<and> createdAt (todos (toggleTodo i st) ! k) = createdAt (todos st ! k)
       \<and> completed (todos (toggleTodo i st) ! k) =
           (if id_t (todos st ! k) = i then \<not> completed (todos st ! k) else completed (todos st ! k))
       \<and> (id_t (todos st ! k) \<noteq> i \<longrightarrow> todos (toggleTodo i st) ! k = todos st ! k))
   \<and> (i \<notin> id_t ` set (todos st) \<longrightarrow> todos (toggleTodo i st) = todos st)"
  by (simp add: toggleTodo_def toggle_map_absent)

theorem toggleTodo_frame_witness:
  "(1::nat) < length (todos ex_dup) \<and>
   id_t (todos ex_dup ! 1) = lit ''b'' \<and>
   completed (todos (toggleTodo (lit ''b'') ex_dup) ! 1) = True \<and>
   text_t (todos (toggleTodo (lit ''b'') ex_dup) ! 1) = lit ''two'' \<and>
   createdAt (todos (toggleTodo (lit ''b'') ex_dup) ! 1) = 2 \<and>
   id_t (todos ex_dup ! 0) \<noteq> lit ''b'' \<and>
   todos (toggleTodo (lit ''b'') ex_dup) ! 0 = todos ex_dup ! 0 \<and>
   lit ''c'' \<notin> id_t ` set (todos ex_dup) \<and>
   todos (toggleTodo (lit ''c'') ex_dup) = todos ex_dup"
  using toggleTodo_frame [of "lit ''b''" ex_dup] toggleTodo_frame [of "lit ''c''" ex_dup]
  by (simp add: ex_dup_def ex_twins_def lit_def)

text \<open>
  C5. Two calls of \<^verbatim>\<open>toggleTodo\<close> with the same identifier give back the collection
  that was there before the first, so every task has its original \<^verbatim>\<open>completed\<close> flag.
\<close>

theorem toggleTodo_involution:
  "todos (toggleTodo i (toggleTodo i st)) = todos st
   \<and> map completed (todos (toggleTodo i (toggleTodo i st))) = map completed (todos st)"
  by (simp add: toggleTodo_def toggle_map_twice del: map_map)

text \<open>
  C6. The footer's handler keeps exactly the tasks that are not completed, in their
  order, and a second call changes nothing more.
\<close>

theorem clearCompleted_idempotent:
  "todos (clearCompleted (clearCompleted st)) = todos (clearCompleted st)
   \<and> todos (clearCompleted st) = filter (\<lambda>t. \<not> completed t) (todos st)"
  by (simp add: clearCompleted_def)

text \<open>
  C7. What the persistence effect writes for a collection, the initialiser reads back as
  that collection: the same tasks in the same order with the same four fields. The
  creation times are integers that a JavaScript number holds exactly.
\<close>

theorem load_save_roundtrip:
  assumes "\<forall>t \<in> set (todos st). safe_createdAt t"
  shows "load_todos (storage (persist st)) = Some (todos st)
       \<and> load (storage (persist st)) = Inr (JArr (map json_of_todo (todos st)))"
  using load_todos_stringify [OF assms] load_stringify [OF assms]
  by (simp add: persist_def)

theorem load_save_roundtrip_witness:
  "safe_createdAt (ex_pair ! 0) \<and> safe_createdAt (ex_pair ! 1) \<and> length ex_pair = 2 \<and>
   storage (persist (initial ex_pair None)) = Some ex_pair_saved \<and>
   load_todos (storage (persist (initial ex_pair None))) = Some ex_pair"
proof -
  have s: "\<forall>t \<in> set (todos (initial ex_pair None)). safe_createdAt t"
    by (simp add: initial_def ex_pair_def safe_createdAt_def MAX_SAFE_INTEGER_def)
  have w: "storage (persist (initial ex_pair None)) = Some ex_pair_saved"
    by (simp add: persist_def initial_def ex_pair_def ex_pair_saved_def JSON_stringify_def
          stringify_todo_def QuoteJSONString_def quote_unit_def Number_toString_def
          digits.simps isLeadingSurrogate_def isTrailingSurrogate_def lit_def)
  from load_save_roundtrip [OF s] s w show ?thesis
    by (simp add: initial_def ex_pair_def)
qed

text \<open>
  C8, as the code has it. The initialiser returns the empty collection when nothing is
  stored under the key and also when the empty string is stored. On every other stored
  text it returns what \<^verbatim>\<open>JSON.parse\<close> returns, whatever its shape, and it fails exactly
  when \<^verbatim>\<open>JSON.parse\<close> throws, with that \<^verbatim>\<open>SyntaxError\<close>; the component then does not
  mount. A text that the persistence effect wrote for a collection is read back as the
  array of its tasks.
\<close>

theorem load_cases:
  "load None = Inr (JArr [])
   \<and> load (Some []) = Inr (JArr [])
   \<and> (s \<noteq> [] \<longrightarrow> load (Some s) = JSON_parse s)
   \<and> (load saved = Inl e \<longleftrightarrow> (\<exists>s. saved = Some s \<and> s \<noteq> [] \<and> JSON_parse s = Inl e))
   \<and> (load saved = Inl e \<longrightarrow> mount saved = None)
   \<and> ((\<forall>t \<in> set ts. safe_createdAt t) \<longrightarrow>
        load (Some (JSON_stringify ts)) = Inr (JArr (map json_of_todo ts)))"
proof -
  have "load saved = Inl e \<longleftrightarrow> (\<exists>s. saved = Some s \<and> s \<noteq> [] \<and> JSON_parse s = Inl e)"
    by (cases saved) (auto simp: load_def)
  moreover have "load saved = Inl e \<longrightarrow> mount saved = None"
    by (simp add: mount_def load_todos_def)
  ultimately show ?thesis
    using load_stringify [of ts] by (simp add: load_def)
qed

theorem load_cases_witness:
  "lit ''{'' \<noteq> [] \<and> load (Some (lit ''{'')) = JSON_parse (lit ''{'') \<and>
   JSON_parse (lit ''{'') = Inl SyntaxError \<and> mount (Some (lit ''{'')) = None \<and>
   safe_createdAt (ex_pair ! 0) \<and> safe_createdAt (ex_pair ! 1) \<and> length ex_pair = 2 \<and>
   load (Some (JSON_stringify ex_pair)) = Inr (JArr (map json_of_todo ex_pair))"
proof -
  have n: "lit ''{'' \<noteq> []" by (simp add: lit_def)
  have p: "JSON_parse (lit ''{'') = Inl SyntaxError"
    by (simp add: JSON_parse_def lit_def isJSONWhiteSpace_def)
  have s: "\<forall>t \<in> set ex_pair. safe_createdAt t"
    by (simp add: ex_pair_def safe_createdAt_def MAX_SAFE_INTEGER_def)
  from load_cases [of "lit ''{''" "Some (lit ''{'')" SyntaxError ex_pair] n p s show ?thesis
    by (simp add: ex_pair_def)
qed

text \<open>
  C8, as the claim states it, fails in two ways. The stored text \<^verbatim>\<open>null\<close> is valid JSON
  and not an array of tasks, and the initialiser returns its value without an error. The
  stored empty string is not JSON, \<^verbatim>\<open>JSON.parse\<close> would throw on it, and the initialiser
  returns the empty collection instead.
\<close>

theorem load_shape_counterexample:
  "load (Some (lit ''null'')) = Inr JNull \<and> as_todos JNull = None \<and>
   JSON_parse [] = Inl SyntaxError \<and> load (Some []) = Inr (JArr [])"
  by (simp add: load_def JSON_parse_def lit_def isJSONWhiteSpace_def isDigit_def)

text \<open>
  C9, as the code has it. The identifiers of the collection are pairwise different in
  every state the component reaches, provided that they are so in the collection the
  initialiser restored and that every identifier the generator returns is carried by no
  task at that moment.
\<close>

theorem unique_ids_preserved:
  assumes "load_todos saved = Some ts"
    and "distinct (map id_t ts)"
    and "fresh_ids es (initial ts saved)"
  shows "mount saved = Some (initial ts saved)
       \<and> distinct (map id_t (todos (run es (initial ts saved))))"
proof -
  have "distinct (map id_t (todos (initial ts saved)))"
    using assms(2) by (simp add: initial_def)
  from run_keeps_distinct [OF this assms(3)] assms(1) show ?thesis
    by (simp add: mount_def)
qed

theorem unique_ids_preserved_witness:
  "load_todos (Some ex_pair_saved) = Some ex_pair \<and> distinct (map id_t ex_pair) \<and>
   fresh_ids [Type (lit '' c ''), Submit (lit ''c'') 5, ClickToggle (lit ''a''),
              ClickDelete (lit ''b''), ClickClear] (initial ex_pair (Some ex_pair_saved)) \<and>
   distinct (map id_t (todos (run [Type (lit '' c ''), Submit (lit ''c'') 5, ClickToggle (lit ''a''),
              ClickDelete (lit ''b''), ClickClear] (initial ex_pair (Some ex_pair_saved)))))"
proof -
  have d: "distinct (map id_t ex_pair)" by (simp add: ex_pair_def lit_def)
  have f: "fresh_ids [Type (lit '' c ''), Submit (lit ''c'') 5, ClickToggle (lit ''a''),
              ClickDelete (lit ''b''), ClickClear] (initial ex_pair (Some ex_pair_saved))"
    by (simp add: initial_def setInputValue_def addTodo_def ex_pair_def lit_def trim_def
          isWhiteSpace_def)
  from unique_ids_preserved [OF load_ex_pair_saved d f] load_ex_pair_saved d f
  show ?thesis by simp
qed

text \<open>
  C9, as the claim states it, fails: the initialiser does not look at the identifiers.
  From the stored text \<open>ex_twins_saved\<close>, in which two tasks have the identifier \<^verbatim>\<open>a\<close>, the
  component mounts in a state whose collection has that identifier twice.
\<close>

theorem unique_ids_counterexample:
  "mount (Some ex_twins_saved) = Some (initial ex_twins (Some ex_twins_saved)) \<and>
   map id_t (todos (run [] (initial ex_twins (Some ex_twins_saved)))) = [lit ''a'', lit ''b'', lit ''a''] \<and>
   \<not> distinct (map id_t (todos (run [] (initial ex_twins (Some ex_twins_saved)))))"
  using load_ex_twins_saved
  by (simp add: mount_def initial_def ex_twins_def lit_def)

text \<open>
  C10. \<^verbatim>\<open>toggleTodo\<close> negates \<^verbatim>\<open>completed\<close> at every position whose task has the
  given identifier, and \<^verbatim>\<open>deleteTodo\<close> removes every task that has it and keeps the
  others: the collection shrinks by the number of tasks with that identifier.
\<close>

theorem toggle_delete_every_match:
  "(\<forall>k < length (todos st). id_t (todos st ! k) = i \<longrightarrow>
       completed (todos (toggleTodo i st) ! k) = (\<not> completed (todos st ! k)))
   \<and> (\<forall>t \<in> set (todos (deleteTodo i st)). id_t t \<noteq> i)
   \<and> filter (\<lambda>t. id_t t \<noteq> i) (todos (deleteTodo i st)) = filter (\<lambda>t. id_t t \<noteq> i) (todos st)
   \<and> length (todos (deleteTodo i st)) + length (filter (\<lambda>t. id_t t = i) (todos st)) = length (todos st)"
  using length_filter_split [of "\<lambda>t. id_t t = i" "todos st"]
  by (simp add: toggleTodo_def deleteTodo_def)

theorem toggle_delete_every_match_witness:
  "(0::nat) < length (todos ex_dup) \<and> 2 < length (todos ex_dup) \<and>
   id_t (todos ex_dup ! 0) = lit ''a'' \<and> id_t (todos ex_dup ! 2) = lit ''a'' \<and>
   completed (todos ex_dup ! 0) = False \<and> completed (todos ex_dup ! 2) = True \<and>
   completed (todos (toggleTodo (lit ''a'') ex_dup) ! 0) = True \<and>
   completed (todos (toggleTodo (lit ''a'') ex_dup) ! 2) = False \<and>
   length (filter (\<lambda>t. id_t t = lit ''a'') (todos ex_dup)) = 2 \<and>
   length (todos ex_dup) = 3 \<and>
   length (todos (deleteTodo (lit ''a'') ex_dup)) = 1 \<and>
   map id_t (todos (deleteTodo (lit ''a'') ex_dup)) = [lit ''b'']"
  using toggle_delete_every_match [of ex_dup "lit ''a''"]
  by (simp add: ex_dup_def ex_twins_def lit_def deleteTodo_def)

end
